theory Spec2Isabelle
  imports Complex_Main
begin

section \<open>The animation loop of the landing page\<close>

text \<open>
  The repository holds two revisions of one page module: \<^verbatim>\<open>src/pages/index.js\<close>
  (the earlier revision, two terrains moving at rate 0.1) and \<^verbatim>\<open>src/unnamed/part_000\<close>
  (the later revision, three terrains at rate 0, plus the scroll-driven camera of
  \<^verbatim>\<open>Foo\<close>). Both are embedded here; where a component differs between the two, the
  definitions carry the suffixes \<open>_v1\<close> and \<open>_v2\<close>, and \<open>revision\<close> selects one.

  JavaScript numbers are modelled as exact reals: a literal such as \<^verbatim>\<open>0.1\<close> stands for the
  rational 1/10, and products, sums and remainders are exact. IEEE-754 rounding, the
  infinities and NaN are outside this embedding.
\<close>

datatype revision = Early | Late

datatype js_error = TypeError

subsection \<open>Numbers\<close>

text \<open>
  The \<^verbatim>\<open>%\<close> operator of JavaScript: the remainder \<open>n - d * q\<close> where \<open>q\<close> is the
  quotient \<open>n / d\<close> truncated towards zero, so that the result has the sign of the
  dividend. Every use in the source has the literal divisor 2; for a zero divisor
  JavaScript yields NaN, which has no counterpart here.
\<close>

definition js_trunc :: "real \<Rightarrow> int" where
  "js_trunc q = (if 0 \<le> q then \<lfloor>q\<rfloor> else \<lceil>q\<rceil>)"

definition js_rem :: "real \<Rightarrow> real \<Rightarrow> real" where
  "js_rem n d = n - d * of_int (js_trunc (n / d))"

subsection \<open>Scene-graph objects\<close>

text \<open>
  A \<^verbatim>\<open>Vector3\<close> (and the \<^verbatim>\<open>Euler\<close> of a rotation) has three numeric coordinates; a mesh
  and the camera are \<^verbatim>\<open>Object3D\<close>s with a position and a rotation.
\<close>

record vector3 =
  vec_x :: real
  vec_y :: real
  vec_z :: real

record object3D =
  position :: vector3
  rotation :: vector3

text \<open>\<^verbatim>\<open>v.set(x, y, z)\<close> overwrites all three coordinates.\<close>

definition vector3_set :: "real \<Rightarrow> real \<Rightarrow> real \<Rightarrow> vector3 \<Rightarrow> vector3" where
  "vector3_set a b c v = v\<lparr>vec_x := a, vec_y := b, vec_z := c\<rparr>"

text \<open>
  \<^verbatim>\<open>Terrain\<close>: \<^verbatim>\<open><mesh ref={ref} position={[0, 0, z]} rotation={[-Math.PI * 0.5, 0, 0]}>\<close>.
\<close>

definition Terrain :: "real \<Rightarrow> object3D" where
  "Terrain z = \<lparr>position = \<lparr>vec_x = 0, vec_y = 0, vec_z = z\<rparr>,
                rotation = \<lparr>vec_x = - pi * 0.5, vec_y = 0, vec_z = 0\<rparr>\<rparr>"

subsection \<open>The camera effect of \<open>Foo\<close> (later revision)\<close>

text \<open>
  \<^verbatim>\<open>useEffect(() => { camera.position.set(0, 0.1, (-2.4+(scroll * 0.003))); }, [scroll])\<close>.
  The camera comes from \<^verbatim>\<open>useThree()\<close> and is always an object.
\<close>

definition Foo_useEffect :: "real \<Rightarrow> object3D \<Rightarrow> object3D" where
  "Foo_useEffect scroll camera =
     camera\<lparr>position := vector3_set 0 0.1 (- 2.4 + (scroll * 0.003)) (position camera)\<rparr>"

subsection \<open>Refs and failure\<close>

text \<open>
  A React ref is a cell whose \<^verbatim>\<open>current\<close> is undefined until the element it is attached
  to has been committed. The terrain refs of \<^verbatim>\<open>Landscape\<close> are kept in a store from ref
  names to objects; \<open>None\<close> is an undefined \<^verbatim>\<open>current\<close>. Reading a property of an undefined
  value throws a \<^verbatim>\<open>TypeError\<close>, which aborts the callback.
\<close>

datatype ref_name = terrain1Ref | terrain2Ref | terrain3Ref

type_synonym refs = "ref_name \<Rightarrow> object3D option"

definition and_then :: "js_error + 'a \<Rightarrow> ('a \<Rightarrow> js_error + 'b) \<Rightarrow> js_error + 'b" where
  "and_then r f = (case r of Inl e \<Rightarrow> Inl e | Inr v \<Rightarrow> f v)"

text \<open>The statement \<^verbatim>\<open>ref.current.position.z = v\<close>.\<close>

definition assign_position_z :: "ref_name \<Rightarrow> real \<Rightarrow> refs \<Rightarrow> js_error + refs" where
  "assign_position_z r v ts =
     (case ts r of
        None \<Rightarrow> Inl TypeError
      | Some m \<Rightarrow> Inr (ts(r \<mapsto> m\<lparr>position := (position m)\<lparr>vec_z := v\<rparr>\<rparr>)))"

subsection \<open>The frame callback of \<open>Landscape\<close>\<close>

text \<open>
  Earlier revision:
  \<^verbatim>\<open>terrain1Ref.current.position.z = (state.clock.elapsedTime * 0.1) % 2;\<close>
  \<^verbatim>\<open>terrain2Ref.current.position.z = ((state.clock.elapsedTime * 0.1) % 2) - 2;\<close>
\<close>

definition Landscape_useFrame_v1 :: "real \<Rightarrow> refs \<Rightarrow> js_error + refs" where
  "Landscape_useFrame_v1 elapsedTime ts =
     and_then (assign_position_z terrain1Ref (js_rem (elapsedTime * 0.1) 2) ts) (\<lambda>ts.
     assign_position_z terrain2Ref ((js_rem (elapsedTime * 0.1) 2) - 2) ts)"

text \<open>
  Later revision: the factor is 0 and a third terrain is written.
  \<^verbatim>\<open>terrain1Ref.current.position.z = (state.clock.elapsedTime * 0) % 2;\<close>
  \<^verbatim>\<open>terrain2Ref.current.position.z = ((state.clock.elapsedTime * 0) % 2) - 2;\<close>
  \<^verbatim>\<open>terrain3Ref.current.position.z = ((state.clock.elapsedTime * 0) % 2) + 2;\<close>
\<close>

definition Landscape_useFrame_v2 :: "real \<Rightarrow> refs \<Rightarrow> js_error + refs" where
  "Landscape_useFrame_v2 elapsedTime ts =
     and_then (assign_position_z terrain1Ref (js_rem (elapsedTime * 0) 2) ts) (\<lambda>ts.
     and_then (assign_position_z terrain2Ref ((js_rem (elapsedTime * 0) 2) - 2) ts) (\<lambda>ts.
     assign_position_z terrain3Ref ((js_rem (elapsedTime * 0) 2) + 2) ts))"

definition Landscape_useFrame :: "revision \<Rightarrow> real \<Rightarrow> refs \<Rightarrow> js_error + refs" where
  "Landscape_useFrame rv elapsedTime ts =
     (case rv of
        Early \<Rightarrow> Landscape_useFrame_v1 elapsedTime ts
      | Late \<Rightarrow> Landscape_useFrame_v2 elapsedTime ts)"

text \<open>
  What \<^verbatim>\<open>Landscape\<close> renders: \<^verbatim>\<open><Terrain ref={terrain1Ref} z={0} />\<close>,
  \<^verbatim>\<open><Terrain ref={terrain2Ref} z={-2} />\<close> and, in the later revision,
  \<^verbatim>\<open><Terrain ref={terrain3Ref} z={2} />\<close>. Committing them attaches the refs.
\<close>

definition Landscape_mount :: "revision \<Rightarrow> refs" where
  "Landscape_mount rv =
     (case rv of
        Early \<Rightarrow> [terrain1Ref \<mapsto> Terrain 0, terrain2Ref \<mapsto> Terrain (- 2)]
      | Late \<Rightarrow> [terrain1Ref \<mapsto> Terrain 0, terrain2Ref \<mapsto> Terrain (- 2),
                 terrain3Ref \<mapsto> Terrain 2])"

subsection \<open>The frame callback of \<open>Effects\<close>\<close>

text \<open>
  A shader pass holds a table of uniforms; \<open>uniforms p name\<close> is the \<^verbatim>\<open>value\<close> of the
  uniform \<^verbatim>\<open>name\<close>, and \<open>None\<close> when the shader declares no such uniform. A value is a
  number, the texture of one of the composer's two render targets, or \<^verbatim>\<open>null\<close>. The composer
  holds its two render targets as \<^verbatim>\<open>writeBuffer\<close> and \<^verbatim>\<open>readBuffer\<close>.
\<close>

datatype render_target = renderTarget1 | renderTarget2

datatype uniform_value = Number real | Texture render_target | Null

record shaderPass =
  uniforms :: "string \<rightharpoonup> uniform_value"

record effectComposer =
  writeBuffer :: render_target
  readBuffer :: render_target

record effects_refs =
  composerRef :: "effectComposer option"
  rgbShiftRef :: "shaderPass option"

text \<open>
  \<^verbatim>\<open>composerRef.current.render()\<close> runs code of three-stdlib, which is not part of the
  repository; what it does to the objects of this model is written down here after that
  library. The composer renders its passes in the order in which \<^verbatim>\<open>Effects\<close> declares them:
  the render pass (no buffer swap), the RGB-shift shader pass, the gamma-correction shader
  pass (a swap after each), the bloom pass (no swap). Rendering a shader pass first stores
  the texture of the read buffer in the pass's input uniform,
  \<^verbatim>\<open>if (this.uniforms[this.textureID]) this.uniforms[this.textureID].value = readBuffer.texture\<close>,
  with \<^verbatim>\<open>textureID\<close> equal to \<^verbatim>\<open>tDiffuse\<close>. The gamma-correction and bloom passes have no ref in
  the source and are not represented; the pixels drawn are not represented either.
\<close>

definition swapBuffers :: "effectComposer \<Rightarrow> effectComposer" where
  "swapBuffers c = c\<lparr>writeBuffer := readBuffer c, readBuffer := writeBuffer c\<rparr>"

definition ShaderPass_render :: "render_target \<Rightarrow> shaderPass \<Rightarrow> shaderPass" where
  "ShaderPass_render readBuf p =
     (case uniforms p ''tDiffuse'' of
        None \<Rightarrow> p
      | Some _ \<Rightarrow> p\<lparr>uniforms := (uniforms p)(''tDiffuse'' \<mapsto> Texture readBuf)\<rparr>)"

definition EffectComposer_render ::
  "effectComposer \<Rightarrow> shaderPass option \<Rightarrow> effectComposer \<times> shaderPass option" where
  "EffectComposer_render c rgbShift =
     (let rgbShift' = map_option (ShaderPass_render (readBuffer c)) rgbShift;
          c1 = swapBuffers c;
          c2 = swapBuffers c1
      in (c2, rgbShift'))"

text \<open>
  \<^verbatim>\<open>if (rgbShiftRef.current) { rgbShiftRef.current.uniforms["amount"].value = 0.0012; }\<close>
  \<^verbatim>\<open>composerRef.current.render();\<close>
  The first statement is guarded; inside it, writing \<^verbatim>\<open>value\<close> of an undeclared uniform
  throws. The second statement is unguarded and throws when the composer ref is undefined;
  otherwise the composer renders, with the shader pass among its passes when that pass has
  been committed.
\<close>

definition Effects_useFrame :: "effects_refs \<Rightarrow> js_error + effects_refs" where
  "Effects_useFrame e =
     and_then
       (case rgbShiftRef e of
          None \<Rightarrow> Inr e
        | Some p \<Rightarrow>
            (case uniforms p ''amount'' of
               None \<Rightarrow> Inl TypeError
             | Some _ \<Rightarrow>
                 Inr (e\<lparr>rgbShiftRef :=
                          Some (p\<lparr>uniforms := (uniforms p)(''amount'' \<mapsto> Number 0.0012)\<rparr>)\<rparr>)))
       (\<lambda>e. case composerRef e of
               None \<Rightarrow> Inl TypeError
             | Some c \<Rightarrow>
                 (case EffectComposer_render c (rgbShiftRef e) of
                    (c', rgbShift') \<Rightarrow> Inr (e\<lparr>composerRef := Some c', rgbShiftRef := rgbShift'\<rparr>)))"

text \<open>
  What \<^verbatim>\<open>Effects\<close> renders: the composer, whose constructor makes \<^verbatim>\<open>renderTarget1\<close> the write
  buffer and \<^verbatim>\<open>renderTarget2\<close> the read buffer, and a shader pass built from the imported
  \<^verbatim>\<open>RGBShiftShader\<close> of three-stdlib, whose uniform table is a parameter here.
\<close>

definition Effects_mount :: "(string \<rightharpoonup> uniform_value) \<Rightarrow> effects_refs" where
  "Effects_mount RGBShiftShader =
     \<lparr>composerRef = Some \<lparr>writeBuffer = renderTarget1, readBuffer = renderTarget2\<rparr>,
      rgbShiftRef = Some \<lparr>uniforms = RGBShiftShader\<rparr>\<rparr>"

subsection \<open>The scene\<close>

record scene =
  terrains :: refs
  effects :: effects_refs
  camera :: object3D

text \<open>
  \<^verbatim>\<open><PerspectiveCamera makeDefault position={[0, 0.11, 1.1]} ... />\<close> in the earlier
  revision, \<^verbatim>\<open>position={[0, 0.1, -2.4]}\<close> in the later one; the rotation is the default.
\<close>

definition PerspectiveCamera :: "revision \<Rightarrow> object3D" where
  "PerspectiveCamera rv =
     \<lparr>position =
        (case rv of
           Early \<Rightarrow> \<lparr>vec_x = 0, vec_y = 0.11, vec_z = 1.1\<rparr>
         | Late \<Rightarrow> \<lparr>vec_x = 0, vec_y = 0.1, vec_z = - 2.4\<rparr>),
      rotation = \<lparr>vec_x = 0, vec_y = 0, vec_z = 0\<rparr>\<rparr>"

text \<open>
  The children of the \<^verbatim>\<open><React.Suspense>\<close> boundary when they are first committed. \<open>camera\<close> is
  the viewing camera, the \<^verbatim>\<open><PerspectiveCamera makeDefault>\<close>. In the later revision the first
  run of the effect of \<^verbatim>\<open>Foo\<close> does not reach it: the \<^verbatim>\<open>camera\<close> that \<^verbatim>\<open>useThree()\<close> gave to that
  first render is the canvas's previous default camera, which \<^verbatim>\<open>makeDefault\<close> replaces only
  afterwards. So the viewing camera starts at its \<^verbatim>\<open>position\<close> prop whatever the scroll offset
  is, and follows the offset from the next change of \<^verbatim>\<open>scroll\<close> on.
\<close>

definition Scene_mount :: "revision \<Rightarrow> (string \<rightharpoonup> uniform_value) \<Rightarrow> scene" where
  "Scene_mount rv RGBShiftShader =
     \<lparr>terrains = Landscape_mount rv,
      effects = Effects_mount RGBShiftShader,
      camera = PerspectiveCamera rv\<rparr>"

text \<open>
  One frame: the callbacks run in the order of their priorities, \<^verbatim>\<open>Landscape\<close>
  (default priority) before \<^verbatim>\<open>Effects\<close> (priority 1). An exception ends the frame.
\<close>

definition Scene_useFrame :: "revision \<Rightarrow> real \<Rightarrow> scene \<Rightarrow> js_error + scene" where
  "Scene_useFrame rv elapsedTime sc =
     and_then (Landscape_useFrame rv elapsedTime (terrains sc)) (\<lambda>ts.
     and_then (Effects_useFrame (effects sc)) (\<lambda>e.
     Inr (sc\<lparr>terrains := ts, effects := e\<rparr>)))"

subsection \<open>The page: the gates of \<open>Scene\<close> and the events\<close>

text \<open>
  \<^verbatim>\<open>Home\<close> holds the scroll offset (later revision, initially 0), \<^verbatim>\<open>Scene\<close> the flag
  \<^verbatim>\<open>mounted\<close> (initially false). \<^verbatim>\<open>Scene\<close> returns \<^verbatim>\<open>{!mounted ? null : (<Canvas ...>)}\<close>, and
  inside the canvas everything is wrapped in \<^verbatim>\<open><React.Suspense fallback={null}>\<close>:
  \<^verbatim>\<open>Terrain\<close> calls \<^verbatim>\<open>useTexture\<close> (and \<^verbatim>\<open>LogoObject\<close>, in the later revision, \<^verbatim>\<open>useLoader\<close>), which
  suspend until the images are loaded. While they are loading the boundary shows its
  fallback: nothing of the scene is committed, no ref is attached and no frame callback
  is subscribed. \<open>assets_loaded\<close> says that the loaders have the images; \<open>canvas\<close> is what
  is committed: \<open>None\<close> when \<^verbatim>\<open>Scene\<close> rendered \<^verbatim>\<open>null\<close>, \<open>Some Suspended\<close> for a canvas that shows
  the fallback, \<open>Some (Committed sc)\<close> for a canvas with the scene \<open>sc\<close>.
\<close>

datatype canvas_children = Suspended | Committed scene

record home =
  scroll :: real
  mounted :: bool
  assets_loaded :: bool
  canvas :: "canvas_children option"

text \<open>
  Rendering the boundary: the fallback while the assets are missing; otherwise the scene,
  which is retained when it is already committed and mounted afresh when it is not.
  Rendering \<^verbatim>\<open>Scene\<close>: nothing while \<^verbatim>\<open>mounted\<close> is false, otherwise the canvas.
  \<open>render_page\<close> is a render of the page followed by its commit; React runs it first when
  the page is created and then after every change of a state variable.
\<close>

definition Suspense_render ::
  "revision \<Rightarrow> (string \<rightharpoonup> uniform_value) \<Rightarrow> home \<Rightarrow> canvas_children" where
  "Suspense_render rv RGBShiftShader h =
     (if \<not> assets_loaded h then Suspended
      else (case canvas h of
              Some (Committed sc) \<Rightarrow> Committed sc
            | _ \<Rightarrow> Committed (Scene_mount rv RGBShiftShader)))"

definition Scene_render ::
  "revision \<Rightarrow> (string \<rightharpoonup> uniform_value) \<Rightarrow> home \<Rightarrow> canvas_children option" where
  "Scene_render rv RGBShiftShader h =
     (if \<not> mounted h then None else Some (Suspense_render rv RGBShiftShader h))"

definition render_page :: "revision \<Rightarrow> (string \<rightharpoonup> uniform_value) \<Rightarrow> home \<Rightarrow> home" where
  "render_page rv RGBShiftShader h = h\<lparr>canvas := Scene_render rv RGBShiftShader h\<rparr>"

definition Home_init :: "revision \<Rightarrow> (string \<rightharpoonup> uniform_value) \<Rightarrow> home" where
  "Home_init rv RGBShiftShader =
     render_page rv RGBShiftShader
       \<lparr>scroll = 0, mounted = False, assets_loaded = False, canvas = None\<rparr>"

text \<open>
  The effect of \<^verbatim>\<open>Foo\<close> on the committed scene, if there is one.
\<close>

definition Foo_commit :: "real \<Rightarrow> home \<Rightarrow> home" where
  "Foo_commit v h =
     (case canvas h of
        Some (Committed sc) \<Rightarrow>
          h\<lparr>canvas := Some (Committed (sc\<lparr>camera := Foo_useEffect v (camera sc)\<rparr>))\<rparr>
      | _ \<Rightarrow> h)"

text \<open>
  The events of the page:
  \<^item> \<open>MountEffect\<close>: the effect \<^verbatim>\<open>React.useEffect(() => { setMounted(true); }, [])\<close>,
    followed by the re-render;
  \<^item> \<open>AssetsLoaded\<close>: the images that the suspended children wait for arrive, and React
    renders the boundary again; loading is started by the first render of the children, so
    the event does nothing unless the canvas shows the fallback;
  \<^item> \<open>Frame t\<close>: a display refresh with \<^verbatim>\<open>state.clock.elapsedTime\<close> equal to \<open>t\<close>; the
    subscribed callbacks belong to the committed scene, so without one nothing runs;
  \<^item> \<open>ScrollEvent v\<close>: \<^verbatim>\<open>onScroll\<close> with \<^verbatim>\<open>scrollTop\<close> equal to \<open>v\<close> (later revision only):
    \<^verbatim>\<open>setScroll(v)\<close>; when the value has changed the page is rendered again and the effect of
    \<^verbatim>\<open>Foo\<close>, whose dependency is \<^verbatim>\<open>[scroll]\<close>, runs if \<^verbatim>\<open>Foo\<close> is committed.
\<close>

datatype event = MountEffect | AssetsLoaded | Frame real | ScrollEvent real

fun step ::
  "revision \<Rightarrow> (string \<rightharpoonup> uniform_value) \<Rightarrow> event \<Rightarrow> home \<Rightarrow> js_error + home" where
  "step rv RGBShiftShader MountEffect h =
     Inr (render_page rv RGBShiftShader (h\<lparr>mounted := True\<rparr>))"
| "step rv RGBShiftShader AssetsLoaded h =
     (if canvas h = Some Suspended
      then Inr (render_page rv RGBShiftShader (h\<lparr>assets_loaded := True\<rparr>))
      else Inr h)"
| "step rv RGBShiftShader (Frame t) h =
     (case canvas h of
        Some (Committed sc) \<Rightarrow>
          and_then (Scene_useFrame rv t sc) (\<lambda>sc'. Inr (h\<lparr>canvas := Some (Committed sc')\<rparr>))
      | _ \<Rightarrow> Inr h)"
| "step rv RGBShiftShader (ScrollEvent v) h =
     (case rv of
        Early \<Rightarrow> Inr h
      | Late \<Rightarrow>
          (if v = scroll h then Inr h
           else Inr (Foo_commit v (render_page rv RGBShiftShader (h\<lparr>scroll := v\<rparr>)))))"

fun run ::
  "revision \<Rightarrow> (string \<rightharpoonup> uniform_value) \<Rightarrow> event list \<Rightarrow> home \<Rightarrow> js_error + home" where
  "run rv RGBShiftShader [] h = Inr h"
| "run rv RGBShiftShader (ev # evs) h =
     and_then (step rv RGBShiftShader ev h) (run rv RGBShiftShader evs)"

subsection \<open>The quantities of the specification\<close>

text \<open>
  The specification speaks of a rate, a period, a stagger per terrain instance and of
  \<open>mod\<close>. They are written down here as the specification words them (\<open>mod\<close> as the
  mathematical modulo, whose result has the sign of the divisor), to be compared with
  what the callbacks compute. \<open>instances\<close> lists the refs that \<^verbatim>\<open>Landscape\<close> declares in
  each revision, \<open>attached\<close> says that their elements have been committed, and
  \<open>written_depth\<close> reads the depth that one run of the frame callback leaves in an instance
  (\<open>None\<close> when the callback throws).
\<close>

definition floor_mod :: "real \<Rightarrow> real \<Rightarrow> real" where
  "floor_mod a p = a - p * of_int \<lfloor>a / p\<rfloor>"

definition rate :: "revision \<Rightarrow> real" where
  "rate rv = (case rv of Early \<Rightarrow> 0.1 | Late \<Rightarrow> 0)"

definition period :: real where
  "period = 2"

definition stagger :: "ref_name \<Rightarrow> real" where
  "stagger r = (case r of terrain1Ref \<Rightarrow> 0 | terrain2Ref \<Rightarrow> - 2 | terrain3Ref \<Rightarrow> 2)"

definition instances :: "revision \<Rightarrow> ref_name list" where
  "instances rv =
     (case rv of
        Early \<Rightarrow> [terrain1Ref, terrain2Ref]
      | Late \<Rightarrow> [terrain1Ref, terrain2Ref, terrain3Ref])"

definition depth :: "ref_name \<Rightarrow> refs \<Rightarrow> real option" where
  "depth r ts = map_option (\<lambda>m. vec_z (position m)) (ts r)"

definition attached :: "revision \<Rightarrow> refs \<Rightarrow> bool" where
  "attached rv ts = (\<forall>r \<in> set (instances rv). ts r \<noteq> None)"

definition written_depth :: "revision \<Rightarrow> real \<Rightarrow> refs \<Rightarrow> ref_name \<Rightarrow> real option" where
  "written_depth rv t ts r =
     (case Landscape_useFrame rv t ts of Inl _ \<Rightarrow> None | Inr ts' \<Rightarrow> depth r ts')"

subsection \<open>Predicates on states\<close>

text \<open>
  \<open>effects_attached\<close>: the refs of \<^verbatim>\<open>Effects\<close> have been committed, and the shader pass declares
  the uniform \<^verbatim>\<open>amount\<close>. \<open>scene_attached\<close>: all refs the frame callbacks read are attached.
  \<open>home_inv\<close>: there is no canvas while \<^verbatim>\<open>mounted\<close> is false; a mounted page shows the fallback
  until the assets are loaded and an attached scene from then on. \<open>amount_of\<close> reads the
  \<^verbatim>\<open>amount\<close> uniform of the page, \<open>uniform_of\<close> a uniform of the shader pass and
  \<open>uniform_after_frame\<close> the same uniform after one run of the callback of \<^verbatim>\<open>Effects\<close>.
  \<open>same_but_z\<close> relates two objects that agree on everything but the depth;
  \<open>same_but_amount\<close> two shader passes that agree on every uniform but \<^verbatim>\<open>amount\<close>, and
  \<open>same_but_amount_tDiffuse\<close> two that agree on every uniform but \<^verbatim>\<open>amount\<close> and \<^verbatim>\<open>tDiffuse\<close>;
  \<open>construction_kept\<close> says that the terrains of the page still have the x, y and rotation
  that \<^verbatim>\<open>Terrain\<close> gave them.
  \<open>RGBShiftShader_uniforms\<close> is the uniform table of three-stdlib's \<^verbatim>\<open>RGBShiftShader\<close> (a
  library, not part of the repository); no general statement depends on it, it only
  serves as the concrete shader in the examples.
\<close>

definition effects_attached :: "effects_refs \<Rightarrow> bool" where
  "effects_attached e =
     (composerRef e \<noteq> None \<and> (\<exists>p. rgbShiftRef e = Some p \<and> uniforms p ''amount'' \<noteq> None))"

definition scene_attached :: "revision \<Rightarrow> scene \<Rightarrow> bool" where
  "scene_attached rv sc = (attached rv (terrains sc) \<and> effects_attached (effects sc))"

definition home_inv :: "revision \<Rightarrow> home \<Rightarrow> bool" where
  "home_inv rv h =
     (if \<not> mounted h then canvas h = None \<and> \<not> assets_loaded h
      else if \<not> assets_loaded h then canvas h = Some Suspended
      else (\<exists>sc. canvas h = Some (Committed sc) \<and> scene_attached rv sc))"

definition uniform_of :: "string \<Rightarrow> effects_refs \<Rightarrow> uniform_value option" where
  "uniform_of k e = (case rgbShiftRef e of None \<Rightarrow> None | Some p \<Rightarrow> uniforms p k)"

definition uniform_after_frame :: "string \<Rightarrow> effects_refs \<Rightarrow> uniform_value option" where
  "uniform_after_frame k e =
     (case Effects_useFrame e of Inl _ \<Rightarrow> None | Inr e' \<Rightarrow> uniform_of k e')"

definition amount_of :: "home \<Rightarrow> uniform_value option" where
  "amount_of h =
     (case canvas h of
        Some (Committed sc) \<Rightarrow> uniform_of ''amount'' (effects sc)
      | _ \<Rightarrow> None)"

definition same_but_z :: "object3D \<Rightarrow> object3D \<Rightarrow> bool" where
  "same_but_z m m' =
     (vec_x (position m') = vec_x (position m) \<and> vec_y (position m') = vec_y (position m) \<and>
      rotation m' = rotation m)"

definition same_but_amount :: "shaderPass \<Rightarrow> shaderPass \<Rightarrow> bool" where
  "same_but_amount p p' = (\<forall>k. k \<noteq> ''amount'' \<longrightarrow> uniforms p' k = uniforms p k)"

definition same_but_amount_tDiffuse :: "shaderPass \<Rightarrow> shaderPass \<Rightarrow> bool" where
  "same_but_amount_tDiffuse p p' =
     (\<forall>k. k \<noteq> ''amount'' \<and> k \<noteq> ''tDiffuse'' \<longrightarrow> uniforms p' k = uniforms p k)"

definition RGBShiftShader_uniforms :: "string \<rightharpoonup> uniform_value" where
  "RGBShiftShader_uniforms =
     [''tDiffuse'' \<mapsto> Null, ''amount'' \<mapsto> Number 0.005, ''angle'' \<mapsto> Number 0]"

definition construction_kept :: "revision \<Rightarrow> home \<Rightarrow> bool" where
  "construction_kept rv h =
     (case canvas h of
        Some (Committed sc) \<Rightarrow>
          (\<forall>r. rel_option same_but_z (Landscape_mount rv r) (terrains sc r))
      | _ \<Rightarrow> True)"

section \<open>Properties\<close>

subsection \<open>Auxiliary facts\<close>

lemma js_rem_nonneg: "0 \<le> a \<Longrightarrow> js_rem a 2 = floor_mod a 2"
  by (simp add: js_rem_def js_trunc_def floor_mod_def)

lemma floor_mod_range:
  assumes p: "0 < p"
  shows "0 \<le> floor_mod a p \<and> floor_mod a p < p"
proof -
  have "of_int \<lfloor>a / p\<rfloor> \<le> a / p"
    by (rule of_int_floor_le)
  then have lo: "of_int \<lfloor>a / p\<rfloor> * p \<le> a"
    by (simp only: pos_le_divide_eq [OF p])
  have "a / p < of_int \<lfloor>a / p\<rfloor> + 1"
    by linarith
  then have hi: "a < (of_int \<lfloor>a / p\<rfloor> + 1) * p"
    by (simp only: pos_divide_less_eq [OF p])
  from lo hi show ?thesis
    by (simp add: floor_mod_def algebra_simps)
qed

lemma js_rem_zero: "js_rem 0 2 = 0"
  by (simp add: js_rem_def js_trunc_def)

lemma floor_mod_zero: "floor_mod 0 2 = 0"
  by (simp add: floor_mod_def)

lemma and_then_Inr: "and_then (Inr v) f = f v"
  by (simp add: and_then_def)

lemma and_then_Inl: "and_then (Inl e) f = Inl e"
  by (simp add: and_then_def)

lemma attached_Early:
  "attached Early ts \<longleftrightarrow> (\<exists>m1 m2. ts terrain1Ref = Some m1 \<and> ts terrain2Ref = Some m2)"
  by (auto simp: attached_def instances_def)

lemma attached_Late:
  "attached Late ts \<longleftrightarrow>
     (\<exists>m1 m2 m3. ts terrain1Ref = Some m1 \<and> ts terrain2Ref = Some m2 \<and> ts terrain3Ref = Some m3)"
  by (auto simp: attached_def instances_def)

lemma Landscape_useFrame_v1_Inr:
  "ts terrain1Ref = Some m1 \<Longrightarrow> ts terrain2Ref = Some m2 \<Longrightarrow>
   Landscape_useFrame_v1 t ts =
     Inr (ts(terrain1Ref \<mapsto> m1\<lparr>position := (position m1)\<lparr>vec_z := js_rem (t * 0.1) 2\<rparr>\<rparr>,
             terrain2Ref \<mapsto> m2\<lparr>position := (position m2)\<lparr>vec_z := js_rem (t * 0.1) 2 - 2\<rparr>\<rparr>))"
  by (simp add: Landscape_useFrame_v1_def and_then_def assign_position_z_def)

lemma Landscape_useFrame_v2_Inr:
  "ts terrain1Ref = Some m1 \<Longrightarrow> ts terrain2Ref = Some m2 \<Longrightarrow> ts terrain3Ref = Some m3 \<Longrightarrow>
   Landscape_useFrame_v2 t ts =
     Inr (ts(terrain1Ref \<mapsto> m1\<lparr>position := (position m1)\<lparr>vec_z := 0\<rparr>\<rparr>,
             terrain2Ref \<mapsto> m2\<lparr>position := (position m2)\<lparr>vec_z := - 2\<rparr>\<rparr>,
             terrain3Ref \<mapsto> m3\<lparr>position := (position m3)\<lparr>vec_z := 2\<rparr>\<rparr>))"
  by (simp add: Landscape_useFrame_v2_def and_then_def assign_position_z_def js_rem_zero)

text \<open>The depth written to each instance, in terms of the operator of the code.\<close>

lemma written_depth_Early:
  assumes "attached Early ts"
  shows "written_depth Early t ts terrain1Ref = Some (js_rem (t * 0.1) 2)"
    and "written_depth Early t ts terrain2Ref = Some (js_rem (t * 0.1) 2 - 2)"
proof -
  from assms obtain m1 m2 where m: "ts terrain1Ref = Some m1" "ts terrain2Ref = Some m2"
    by (auto simp: attached_Early)
  show "written_depth Early t ts terrain1Ref = Some (js_rem (t * 0.1) 2)"
    by (simp add: written_depth_def Landscape_useFrame_def Landscape_useFrame_v1_Inr [OF m]
        depth_def)
  show "written_depth Early t ts terrain2Ref = Some (js_rem (t * 0.1) 2 - 2)"
    by (simp add: written_depth_def Landscape_useFrame_def Landscape_useFrame_v1_Inr [OF m]
        depth_def)
qed

lemma written_depth_Late:
  assumes "attached Late ts"
  shows "written_depth Late t ts terrain1Ref = Some 0"
    and "written_depth Late t ts terrain2Ref = Some (- 2)"
    and "written_depth Late t ts terrain3Ref = Some 2"
proof -
  from assms obtain m1 m2 m3 where
    m: "ts terrain1Ref = Some m1" "ts terrain2Ref = Some m2" "ts terrain3Ref = Some m3"
    by (auto simp: attached_Late)
  show "written_depth Late t ts terrain1Ref = Some 0"
    by (simp add: written_depth_def Landscape_useFrame_def Landscape_useFrame_v2_Inr [OF m]
        depth_def)
  show "written_depth Late t ts terrain2Ref = Some (- 2)"
    by (simp add: written_depth_def Landscape_useFrame_def Landscape_useFrame_v2_Inr [OF m]
        depth_def)
  show "written_depth Late t ts terrain3Ref = Some 2"
    by (simp add: written_depth_def Landscape_useFrame_def Landscape_useFrame_v2_Inr [OF m]
        depth_def)
qed

lemma attached_Landscape_mount: "attached rv (Landscape_mount rv)"
  by (cases rv) (simp_all add: attached_def instances_def Landscape_mount_def)

lemma written_depth_code:
  assumes "attached rv ts" and "r \<in> set (instances rv)"
  shows "written_depth rv t ts r = Some (js_rem (t * rate rv) period + stagger r)"
proof (cases rv)
  case Early
  with assms show ?thesis
    by (auto simp: instances_def written_depth_Early rate_def period_def stagger_def)
next
  case Late
  with assms show ?thesis
    by (auto simp: instances_def written_depth_Late rate_def period_def stagger_def js_rem_zero)
qed

lemma swapBuffers_twice: "swapBuffers (swapBuffers c) = c"
  by (simp add: swapBuffers_def)

lemma EffectComposer_render_eq:
  "EffectComposer_render c q = (c, map_option (ShaderPass_render (readBuffer c)) q)"
  by (simp add: EffectComposer_render_def swapBuffers_twice)

lemma ShaderPass_render_amount:
  "uniforms (ShaderPass_render b p) ''amount'' = uniforms p ''amount''"
  by (simp add: ShaderPass_render_def split: option.splits)

lemma ShaderPass_render_other:
  "k \<noteq> ''tDiffuse'' \<Longrightarrow> uniforms (ShaderPass_render b p) k = uniforms p k"
  by (simp add: ShaderPass_render_def split: option.splits)

lemma ShaderPass_render_idem:
  "ShaderPass_render b (ShaderPass_render b p) = ShaderPass_render b p"
  by (simp add: ShaderPass_render_def split: option.splits)

lemma Effects_useFrame_Some:
  assumes c: "composerRef e = Some c" and p: "rgbShiftRef e = Some p"
    and a: "uniforms p ''amount'' \<noteq> None"
  shows "Effects_useFrame e =
           Inr (e\<lparr>rgbShiftRef :=
                   Some (ShaderPass_render (readBuffer c)
                          (p\<lparr>uniforms := (uniforms p)(''amount'' \<mapsto> Number 0.0012)\<rparr>))\<rparr>)"
proof -
  from a obtain x where x: "uniforms p ''amount'' = Some x"
    by blast
  have "e\<lparr>composerRef := Some c\<rparr> = e"
    using c by (cases e) simp
  then have "\<And>q. e\<lparr>composerRef := Some c, rgbShiftRef := q\<rparr> = e\<lparr>rgbShiftRef := q\<rparr>"
    by (cases e) simp
  with c p x show ?thesis
    by (simp add: Effects_useFrame_def and_then_Inr EffectComposer_render_eq)
qed

lemma Effects_useFrame_attached:
  assumes "effects_attached e"
  shows "\<exists>p p'. rgbShiftRef e = Some p \<and>
           Effects_useFrame e = Inr (e\<lparr>rgbShiftRef := Some p'\<rparr>) \<and>
           uniforms p' ''amount'' = Some (Number 0.0012) \<and> same_but_amount_tDiffuse p p'"
proof -
  from assms obtain c p where
    c: "composerRef e = Some c" and p: "rgbShiftRef e = Some p"
    and a: "uniforms p ''amount'' \<noteq> None"
    by (auto simp: effects_attached_def)
  let ?p' = "ShaderPass_render (readBuffer c)
               (p\<lparr>uniforms := (uniforms p)(''amount'' \<mapsto> Number 0.0012)\<rparr>)"
  have "uniforms ?p' ''amount'' = Some (Number 0.0012)"
    by (simp add: ShaderPass_render_amount)
  moreover have "same_but_amount_tDiffuse p ?p'"
    by (simp add: same_but_amount_tDiffuse_def ShaderPass_render_other)
  ultimately show ?thesis
    using p Effects_useFrame_Some [OF c p a] by blast
qed

lemma Effects_useFrame_idem:
  assumes "Effects_useFrame e = Inr e'"
  shows "Effects_useFrame e' = Inr e'"
proof -
  from assms obtain c where c: "composerRef e = Some c"
    by (auto simp: Effects_useFrame_def and_then_def split: option.splits sum.splits)
  show ?thesis
  proof (cases "rgbShiftRef e")
    case None
    with assms c have "e' = e"
      by (cases e) (auto simp: Effects_useFrame_def and_then_def EffectComposer_render_eq)
    with assms show ?thesis by simp
  next
    case (Some p)
    with assms have a: "uniforms p ''amount'' \<noteq> None"
      by (auto simp: Effects_useFrame_def and_then_def split: option.splits)
    let ?p' = "ShaderPass_render (readBuffer c)
                 (p\<lparr>uniforms := (uniforms p)(''amount'' \<mapsto> Number 0.0012)\<rparr>)"
    from assms Effects_useFrame_Some [OF c Some a] have e': "e' = e\<lparr>rgbShiftRef := Some ?p'\<rparr>"
      by simp
    have c': "composerRef e' = Some c" and p': "rgbShiftRef e' = Some ?p'"
      using c by (simp_all add: e')
    have a': "uniforms ?p' ''amount'' \<noteq> None"
      by (simp add: ShaderPass_render_amount)
    have "?p'\<lparr>uniforms := (uniforms ?p')(''amount'' \<mapsto> Number 0.0012)\<rparr> = ?p'"
      by (simp add: ShaderPass_render_def fun_upd_idem split: option.splits)
    then have "ShaderPass_render (readBuffer c)
                 (?p'\<lparr>uniforms := (uniforms ?p')(''amount'' \<mapsto> Number 0.0012)\<rparr>) = ?p'"
      by (simp only: ShaderPass_render_idem)
    with Effects_useFrame_Some [OF c' p' a'] show ?thesis
      by (simp add: e')
  qed
qed

lemma Landscape_useFrame_idem:
  "Landscape_useFrame rv t ts = Inr ts' \<Longrightarrow> Landscape_useFrame rv t ts' = Inr ts'"
  by (auto simp: Landscape_useFrame_def Landscape_useFrame_v1_def Landscape_useFrame_v2_def
      assign_position_z_def and_then_def split: revision.splits option.splits)

lemma Landscape_useFrame_attached:
  assumes "attached rv ts"
  shows "\<exists>ts'. Landscape_useFrame rv t ts = Inr ts' \<and> attached rv ts' \<and>
           (\<forall>r. rel_option same_but_z (ts r) (ts' r))"
proof (cases rv)
  case Early
  with assms obtain m1 m2 where m: "ts terrain1Ref = Some m1" "ts terrain2Ref = Some m2"
    by (auto simp: attached_Early)
  have "\<forall>r. rel_option same_but_z (ts r)
          ((ts(terrain1Ref \<mapsto> m1\<lparr>position := (position m1)\<lparr>vec_z := js_rem (t * 0.1) 2\<rparr>\<rparr>,
               terrain2Ref \<mapsto> m2\<lparr>position := (position m2)\<lparr>vec_z := js_rem (t * 0.1) 2 - 2\<rparr>\<rparr>))
             r)"
    using m by (auto simp: same_but_z_def option.rel_refl)
  with Early show ?thesis
    by (simp add: Landscape_useFrame_def Landscape_useFrame_v1_Inr [OF m] attached_Early)
next
  case Late
  with assms obtain m1 m2 m3 where
    m: "ts terrain1Ref = Some m1" "ts terrain2Ref = Some m2" "ts terrain3Ref = Some m3"
    by (auto simp: attached_Late)
  have "\<forall>r. rel_option same_but_z (ts r)
          ((ts(terrain1Ref \<mapsto> m1\<lparr>position := (position m1)\<lparr>vec_z := 0\<rparr>\<rparr>,
               terrain2Ref \<mapsto> m2\<lparr>position := (position m2)\<lparr>vec_z := - 2\<rparr>\<rparr>,
               terrain3Ref \<mapsto> m3\<lparr>position := (position m3)\<lparr>vec_z := 2\<rparr>\<rparr>))
             r)"
    using m by (auto simp: same_but_z_def option.rel_refl)
  with Late show ?thesis
    by (simp add: Landscape_useFrame_def Landscape_useFrame_v2_Inr [OF m] attached_Late)
qed

lemma effects_attached_update:
  assumes "effects_attached e" and "uniforms p' ''amount'' \<noteq> None"
  shows "effects_attached (e\<lparr>rgbShiftRef := Some p'\<rparr>)"
  using assms unfolding effects_attached_def by auto

lemma Scene_useFrame_attached:
  assumes "scene_attached rv sc"
  shows "\<exists>ts' p p'. Landscape_useFrame rv t (terrains sc) = Inr ts' \<and>
           rgbShiftRef (effects sc) = Some p \<and>
           Scene_useFrame rv t sc =
             Inr (sc\<lparr>terrains := ts', effects := (effects sc)\<lparr>rgbShiftRef := Some p'\<rparr>\<rparr>) \<and>
           uniforms p' ''amount'' = Some (Number 0.0012) \<and> same_but_amount_tDiffuse p p' \<and>
           attached rv ts' \<and> (\<forall>r. rel_option same_but_z (terrains sc r) (ts' r)) \<and>
           scene_attached rv
             (sc\<lparr>terrains := ts', effects := (effects sc)\<lparr>rgbShiftRef := Some p'\<rparr>\<rparr>)"
proof -
  from assms have a: "attached rv (terrains sc)" and e: "effects_attached (effects sc)"
    by (simp_all add: scene_attached_def)
  from Landscape_useFrame_attached [OF a, of t] obtain ts' where
    ts': "Landscape_useFrame rv t (terrains sc) = Inr ts'" "attached rv ts'"
      "\<forall>r. rel_option same_but_z (terrains sc r) (ts' r)"
    by blast
  from Effects_useFrame_attached [OF e] obtain p p' where
    p: "rgbShiftRef (effects sc) = Some p"
      "Effects_useFrame (effects sc) = Inr ((effects sc)\<lparr>rgbShiftRef := Some p'\<rparr>)"
      "uniforms p' ''amount'' = Some (Number 0.0012)" "same_but_amount_tDiffuse p p'"
    by blast
  from p(3) have "uniforms p' ''amount'' \<noteq> None"
    by simp
  with e have "effects_attached ((effects sc)\<lparr>rgbShiftRef := Some p'\<rparr>)"
    by (rule effects_attached_update)
  with ts' p show ?thesis
    by (auto simp: Scene_useFrame_def and_then_Inr scene_attached_def)
qed

lemma Scene_useFrame_preserves:
  assumes "scene_attached rv sc"
  shows "\<exists>sc'. Scene_useFrame rv t sc = Inr sc' \<and> scene_attached rv sc'"
  using Scene_useFrame_attached [OF assms, of t] by blast

lemma Scene_useFrame_idem:
  "Scene_useFrame rv t sc = Inr sc' \<Longrightarrow> Scene_useFrame rv t sc' = Inr sc'"
  by (auto simp: Scene_useFrame_def and_then_def Landscape_useFrame_idem Effects_useFrame_idem
      split: sum.splits)

lemma effects_attached_Effects_mount:
  "sh ''amount'' \<noteq> None \<Longrightarrow> effects_attached (Effects_mount sh)"
  by (simp add: effects_attached_def Effects_mount_def)

lemma scene_attached_Scene_mount:
  "sh ''amount'' \<noteq> None \<Longrightarrow> scene_attached rv (Scene_mount rv sh)"
  by (simp add: scene_attached_def Scene_mount_def attached_Landscape_mount
      effects_attached_Effects_mount)

lemma RGBShiftShader_uniforms_amount: "RGBShiftShader_uniforms ''amount'' \<noteq> None"
  by (simp add: RGBShiftShader_uniforms_def)

lemma and_then_Inr_iff:
  "and_then r f = Inr y \<longleftrightarrow> (\<exists>x. r = Inr x \<and> f x = Inr y)"
  by (cases r) (simp_all add: and_then_def)

lemma run_append:
  "run rv sh (xs @ ys) h = and_then (run rv sh xs h) (run rv sh ys)"
  by (induction xs arbitrary: h) (auto simp: and_then_def split: sum.splits)

lemma home_inv_Home_init: "home_inv rv (Home_init rv sh)"
  by (simp add: home_inv_def Home_init_def render_page_def Scene_render_def)

lemma scroll_Foo_commit: "scroll (Foo_commit v h) = scroll h"
  by (simp add: Foo_commit_def split: option.splits canvas_children.splits)

lemma step_home_inv:
  assumes sh: "ev = AssetsLoaded \<longrightarrow> sh ''amount'' \<noteq> None" and inv: "home_inv rv h"
  shows "\<exists>h'. step rv sh ev h = Inr h' \<and> home_inv rv h' \<and> (mounted h \<longrightarrow> mounted h') \<and>
           (assets_loaded h \<longrightarrow> assets_loaded h')"
proof (cases ev)
  case MountEffect
  with inv show ?thesis
    by (auto simp: home_inv_def render_page_def Scene_render_def Suspense_render_def
        split: if_splits)
next
  case AssetsLoaded
  with sh inv show ?thesis
    by (auto simp: home_inv_def render_page_def Scene_render_def Suspense_render_def
        scene_attached_Scene_mount split: if_splits)
next
  case (Frame t)
  show ?thesis
  proof (cases "mounted h \<and> assets_loaded h")
    case True
    with inv obtain sc where sc: "canvas h = Some (Committed sc)" "scene_attached rv sc"
      by (auto simp: home_inv_def)
    from Scene_useFrame_preserves [OF sc(2), of t] obtain sc' where
      "Scene_useFrame rv t sc = Inr sc'" "scene_attached rv sc'"
      by blast
    with Frame sc True show ?thesis
      by (simp add: and_then_Inr home_inv_def)
  next
    case False
    with inv Frame show ?thesis
      by (auto simp: home_inv_def split: if_splits)
  qed
next
  case (ScrollEvent v)
  with inv show ?thesis
    by (cases rv)
      (auto simp: home_inv_def render_page_def Scene_render_def Suspense_render_def
        Foo_commit_def scene_attached_def split: if_splits)
qed

lemma run_home_inv:
  assumes sh: "sh ''amount'' \<noteq> None"
  shows "home_inv rv h \<Longrightarrow>
         \<exists>h'. run rv sh evs h = Inr h' \<and> home_inv rv h' \<and> (mounted h \<longrightarrow> mounted h') \<and>
           (assets_loaded h \<longrightarrow> assets_loaded h')"
proof (induction evs arbitrary: h)
  case Nil
  then show ?case by simp
next
  case (Cons ev evs)
  from sh Cons.prems have
    "\<exists>h'. step rv sh ev h = Inr h' \<and> home_inv rv h' \<and> (mounted h \<longrightarrow> mounted h') \<and>
       (assets_loaded h \<longrightarrow> assets_loaded h')"
    by (intro step_home_inv) simp_all
  then obtain h1 where
    h1: "step rv sh ev h = Inr h1" "home_inv rv h1" "mounted h \<longrightarrow> mounted h1"
      "assets_loaded h \<longrightarrow> assets_loaded h1"
    by blast
  from Cons.IH [OF h1(2)] obtain h' where
    "run rv sh evs h1 = Inr h'" "home_inv rv h'" "mounted h1 \<longrightarrow> mounted h'"
    "assets_loaded h1 \<longrightarrow> assets_loaded h'"
    by blast
  with h1 show ?case
    by (simp add: and_then_Inr)
qed

lemma run_unmounted:
  "MountEffect \<notin> set evs \<Longrightarrow> \<not> mounted h \<Longrightarrow> \<not> assets_loaded h \<Longrightarrow> canvas h = None \<Longrightarrow>
   \<exists>h'. run rv sh evs h = Inr h' \<and> \<not> mounted h' \<and> \<not> assets_loaded h' \<and> canvas h' = None"
proof (induction evs arbitrary: h)
  case Nil
  then show ?case by simp
next
  case (Cons ev evs)
  from Cons.prems have
    "\<exists>h1. step rv sh ev h = Inr h1 \<and> \<not> mounted h1 \<and> \<not> assets_loaded h1 \<and> canvas h1 = None"
    by (cases ev; cases rv)
      (auto simp: render_page_def Scene_render_def Foo_commit_def)
  then obtain h1 where
    h1: "step rv sh ev h = Inr h1" "\<not> mounted h1" "\<not> assets_loaded h1" "canvas h1 = None"
    by blast
  from Cons.prems have "MountEffect \<notin> set evs" by simp
  from Cons.IH [OF this h1(2,3,4)] h1(1) show ?case
    by (simp add: and_then_Inr)
qed

lemma Home_init_unmounted:
  "\<not> mounted (Home_init rv sh) \<and> \<not> assets_loaded (Home_init rv sh) \<and>
   canvas (Home_init rv sh) = None"
  by (simp add: Home_init_def render_page_def Scene_render_def)

lemma run_suspended:
  "AssetsLoaded \<notin> set evs \<Longrightarrow> mounted h \<Longrightarrow> \<not> assets_loaded h \<Longrightarrow>
   canvas h = Some Suspended \<Longrightarrow>
   \<exists>h'. run rv sh evs h = Inr h' \<and> mounted h' \<and> \<not> assets_loaded h' \<and>
     canvas h' = Some Suspended"
proof (induction evs arbitrary: h)
  case Nil
  then show ?case by simp
next
  case (Cons ev evs)
  from Cons.prems have
    "\<exists>h1. step rv sh ev h = Inr h1 \<and> mounted h1 \<and> \<not> assets_loaded h1 \<and>
       canvas h1 = Some Suspended"
    by (cases ev; cases rv)
      (auto simp: render_page_def Scene_render_def Suspense_render_def Foo_commit_def)
  then obtain h1 where
    h1: "step rv sh ev h = Inr h1" "mounted h1" "\<not> assets_loaded h1"
      "canvas h1 = Some Suspended"
    by blast
  from Cons.prems have "AssetsLoaded \<notin> set evs" by simp
  from Cons.IH [OF this h1(2,3,4)] h1(1) show ?case
    by (simp add: and_then_Inr)
qed

lemma step_Frame_idem:
  assumes "step rv sh (Frame t) h = Inr h'"
  shows "step rv sh (Frame t) h' = Inr h'"
proof (cases "\<exists>sc. canvas h = Some (Committed sc)")
  case True
  then obtain sc where sc: "canvas h = Some (Committed sc)"
    by blast
  with assms obtain sc' where
    sc': "Scene_useFrame rv t sc = Inr sc'" "h' = h\<lparr>canvas := Some (Committed sc')\<rparr>"
    by (auto simp: and_then_def split: sum.splits)
  from Scene_useFrame_idem [OF sc'(1)] sc'(2) show ?thesis
    by (simp add: and_then_Inr)
next
  case False
  with assms have "h' = h"
    by (auto split: option.splits canvas_children.splits)
  with assms show ?thesis by simp
qed

lemma scroll_then_frame_idem:
  assumes "run rv sh [ScrollEvent v, Frame t] h = Inr h'"
  shows "run rv sh [ScrollEvent v, Frame t] h' = Inr h'"
proof -
  from assms obtain h1 where
    h1: "step rv sh (ScrollEvent v) h = Inr h1" "step rv sh (Frame t) h1 = Inr h'"
    by (auto simp: and_then_def split: sum.splits)
  from h1(1) have s1: "rv = Late \<longrightarrow> scroll h1 = v"
    by (cases rv) (auto simp: scroll_Foo_commit render_page_def split: if_splits)
  from h1(2) have "scroll h' = scroll h1"
    by (auto simp: and_then_def split: option.splits canvas_children.splits sum.splits)
  with s1 have "step rv sh (ScrollEvent v) h' = Inr h'"
    by (cases rv) auto
  moreover from h1(2) have "step rv sh (Frame t) h' = Inr h'"
    by (rule step_Frame_idem)
  ultimately show ?thesis
    by (simp add: and_then_Inr)
qed

lemma step_MountEffect_mounted:
  assumes "home_inv rv h"
  shows "\<exists>h'. step rv sh MountEffect h = Inr h' \<and> home_inv rv h' \<and> mounted h'"
  using assms
  by (auto simp: home_inv_def render_page_def Scene_render_def Suspense_render_def
      split: if_splits)

lemma step_AssetsLoaded_loaded:
  assumes "sh ''amount'' \<noteq> None" and "home_inv rv h" and "mounted h"
  shows "\<exists>h'. step rv sh AssetsLoaded h = Inr h' \<and> home_inv rv h' \<and> mounted h' \<and>
           assets_loaded h'"
  using assms
  by (auto simp: home_inv_def render_page_def Scene_render_def Suspense_render_def
      scene_attached_Scene_mount split: if_splits)

lemma run_reaches_committed:
  assumes sh: "sh ''amount'' \<noteq> None"
  shows "\<exists>h. run rv sh (evs @ MountEffect # evs' @ AssetsLoaded # evs'') (Home_init rv sh) = Inr h \<and>
           home_inv rv h \<and> mounted h \<and> assets_loaded h"
proof -
  from run_home_inv [where sh = sh and rv = rv and evs = evs, OF sh home_inv_Home_init]
  obtain h1 where h1: "run rv sh evs (Home_init rv sh) = Inr h1" "home_inv rv h1"
    by blast
  from step_MountEffect_mounted [OF h1(2)] obtain h2 where
    h2: "step rv sh MountEffect h1 = Inr h2" "home_inv rv h2" "mounted h2"
    by blast
  from run_home_inv [where sh = sh and evs = evs', OF sh h2(2)] h2(3) obtain h3 where
    h3: "run rv sh evs' h2 = Inr h3" "home_inv rv h3" "mounted h3"
    by blast
  from step_AssetsLoaded_loaded [where sh = sh, OF sh h3(2,3)] obtain h4 where
    h4: "step rv sh AssetsLoaded h3 = Inr h4" "home_inv rv h4" "mounted h4" "assets_loaded h4"
    by blast
  from run_home_inv [where sh = sh and evs = evs'', OF sh h4(2)] h4(3,4) obtain h5 where
    h5: "run rv sh evs'' h4 = Inr h5" "home_inv rv h5" "mounted h5" "assets_loaded h5"
    by blast
  from h1(1) h2(1) h3(1) h4(1) h5 show ?thesis
    by (simp add: run_append and_then_Inr)
qed

lemma home_inv_committed:
  "home_inv rv h \<Longrightarrow> mounted h \<Longrightarrow> assets_loaded h \<Longrightarrow>
   \<exists>sc. canvas h = Some (Committed sc) \<and> scene_attached rv sc"
  by (simp add: home_inv_def)

lemma step_Frame_committed:
  assumes "home_inv rv h" and "mounted h" and "assets_loaded h"
  shows "\<exists>sc ts' p'. canvas h = Some (Committed sc) \<and>
           Landscape_useFrame rv t (terrains sc) = Inr ts' \<and>
           uniforms p' ''amount'' = Some (Number 0.0012) \<and>
           step rv sh (Frame t) h =
             Inr (h\<lparr>canvas := Some (Committed
                    (sc\<lparr>terrains := ts', effects := (effects sc)\<lparr>rgbShiftRef := Some p'\<rparr>\<rparr>))\<rparr>) \<and>
           attached rv (terrains sc) \<and>
           scene_attached rv
             (sc\<lparr>terrains := ts', effects := (effects sc)\<lparr>rgbShiftRef := Some p'\<rparr>\<rparr>)"
proof -
  from home_inv_committed [OF assms] obtain sc where
    sc: "canvas h = Some (Committed sc)" "scene_attached rv sc"
    by blast
  from Scene_useFrame_attached [OF sc(2), of t] obtain ts' p p' where
    "Landscape_useFrame rv t (terrains sc) = Inr ts'"
    "Scene_useFrame rv t sc =
       Inr (sc\<lparr>terrains := ts', effects := (effects sc)\<lparr>rgbShiftRef := Some p'\<rparr>\<rparr>)"
    "uniforms p' ''amount'' = Some (Number 0.0012)"
    "scene_attached rv (sc\<lparr>terrains := ts', effects := (effects sc)\<lparr>rgbShiftRef := Some p'\<rparr>\<rparr>)"
    by blast
  moreover from sc(2) have "attached rv (terrains sc)"
    by (simp add: scene_attached_def)
  ultimately show ?thesis using sc(1)
    by (auto simp: and_then_Inr)
qed

lemma amount_of_after_Frame:
  assumes "home_inv rv h" and "mounted h" and "assets_loaded h"
  shows "\<exists>h'. step rv sh (Frame t) h = Inr h' \<and> home_inv rv h' \<and> mounted h' \<and>
           assets_loaded h' \<and> amount_of h' = Some (Number 0.0012)"
proof -
  from step_Frame_committed [OF assms, of t sh] obtain sc ts' p' where
    "uniforms p' ''amount'' = Some (Number 0.0012)"
    "step rv sh (Frame t) h =
       Inr (h\<lparr>canvas := Some (Committed
              (sc\<lparr>terrains := ts', effects := (effects sc)\<lparr>rgbShiftRef := Some p'\<rparr>\<rparr>))\<rparr>)"
    "scene_attached rv (sc\<lparr>terrains := ts', effects := (effects sc)\<lparr>rgbShiftRef := Some p'\<rparr>\<rparr>)"
    by blast
  with assms(2,3) show ?thesis
    by (simp add: home_inv_def amount_of_def uniform_of_def)
qed

lemma step_keeps_amount:
  assumes sh: "sh ''amount'' \<noteq> None" and inv: "home_inv rv h" and m: "mounted h"
    and l: "assets_loaded h" and a: "amount_of h = Some (Number 0.0012)"
  shows "\<exists>h'. step rv sh ev h = Inr h' \<and> home_inv rv h' \<and> mounted h' \<and> assets_loaded h' \<and>
           amount_of h' = Some (Number 0.0012)"
proof (cases ev)
  case MountEffect
  with inv m l a show ?thesis
    by (auto simp: home_inv_def render_page_def Scene_render_def Suspense_render_def
        amount_of_def)
next
  case AssetsLoaded
  with inv m l a show ?thesis
    by (auto simp: home_inv_def)
next
  case (Frame t)
  with amount_of_after_Frame [OF inv m l, of sh t] show ?thesis
    by simp
next
  case (ScrollEvent v)
  with inv m l a show ?thesis
    by (cases rv)
      (auto simp: home_inv_def render_page_def Scene_render_def Suspense_render_def
        Foo_commit_def scene_attached_def amount_of_def)
qed

lemma run_keeps_amount:
  assumes sh: "sh ''amount'' \<noteq> None"
  shows "home_inv rv h \<Longrightarrow> mounted h \<Longrightarrow> assets_loaded h \<Longrightarrow>
         amount_of h = Some (Number 0.0012) \<Longrightarrow>
         \<exists>h'. run rv sh evs h = Inr h' \<and> amount_of h' = Some (Number 0.0012)"
proof (induction evs arbitrary: h)
  case Nil
  then show ?case by simp
next
  case (Cons ev evs)
  from sh Cons.prems have
    "\<exists>h'. step rv sh ev h = Inr h' \<and> home_inv rv h' \<and> mounted h' \<and> assets_loaded h' \<and>
       amount_of h' = Some (Number 0.0012)"
    by (intro step_keeps_amount)
  then obtain h1 where
    h1: "step rv sh ev h = Inr h1" "home_inv rv h1" "mounted h1" "assets_loaded h1"
      "amount_of h1 = Some (Number 0.0012)"
    by blast
  from Cons.IH [OF h1(2,3,4,5)] h1(1) show ?case
    by (simp add: and_then_Inr)
qed

lemma same_but_z_refl: "same_but_z m m"
  by (simp add: same_but_z_def)

lemma same_but_z_trans: "same_but_z a b \<Longrightarrow> same_but_z b c \<Longrightarrow> same_but_z a c"
  by (simp add: same_but_z_def)

lemma rel_option_same_but_z_trans:
  "rel_option same_but_z a b \<Longrightarrow> rel_option same_but_z b c \<Longrightarrow> rel_option same_but_z a c"
  by (cases a; cases b; cases c) (auto intro: same_but_z_trans)

lemma construction_kept_Scene_mount:
  "\<forall>r. rel_option same_but_z (Landscape_mount rv r) (terrains (Scene_mount rv sh) r)"
  by (simp add: Scene_mount_def option.rel_refl same_but_z_refl)

lemma step_construction_kept:
  assumes sh: "ev = AssetsLoaded \<longrightarrow> sh ''amount'' \<noteq> None" and inv: "home_inv rv h"
    and k: "construction_kept rv h"
  shows "\<exists>h'. step rv sh ev h = Inr h' \<and> home_inv rv h' \<and> construction_kept rv h'"
proof -
  from sh inv have
    "\<exists>h'. step rv sh ev h = Inr h' \<and> home_inv rv h' \<and> (mounted h \<longrightarrow> mounted h') \<and>
       (assets_loaded h \<longrightarrow> assets_loaded h')"
    by (rule step_home_inv)
  then obtain h' where h': "step rv sh ev h = Inr h'" "home_inv rv h'"
    by blast
  have "construction_kept rv h'"
  proof (cases ev)
    case MountEffect
    with h'(1) k show ?thesis
      by (auto simp: construction_kept_def render_page_def Scene_render_def Suspense_render_def
          construction_kept_Scene_mount split: option.splits canvas_children.splits if_splits)
  next
    case AssetsLoaded
    with h'(1) k show ?thesis
      by (auto simp: construction_kept_def render_page_def Scene_render_def Suspense_render_def
          construction_kept_Scene_mount split: option.splits canvas_children.splits if_splits)
  next
    case (Frame t)
    show ?thesis
    proof (cases "\<exists>sc. canvas h = Some (Committed sc)")
      case True
      then obtain sc where sc: "canvas h = Some (Committed sc)"
        by blast
      with inv have att: "scene_attached rv sc"
        by (auto simp: home_inv_def split: if_splits)
      from Scene_useFrame_attached [OF att, of t] obtain ts' p' where
        f: "Scene_useFrame rv t sc =
             Inr (sc\<lparr>terrains := ts', effects := (effects sc)\<lparr>rgbShiftRef := Some p'\<rparr>\<rparr>)"
        and r: "\<forall>r. rel_option same_but_z (terrains sc r) (ts' r)"
        by blast
      from k sc have "\<forall>r. rel_option same_but_z (Landscape_mount rv r) (terrains sc r)"
        by (simp add: construction_kept_def)
      with r have "\<forall>r. rel_option same_but_z (Landscape_mount rv r) (ts' r)"
        by (blast intro: rel_option_same_but_z_trans)
      with h'(1) Frame sc f show ?thesis
        by (auto simp: and_then_Inr construction_kept_def)
    next
      case False
      with h'(1) Frame have "h' = h"
        by (auto split: option.splits canvas_children.splits)
      with k show ?thesis by simp
    qed
  next
    case (ScrollEvent v)
    with h'(1) k show ?thesis
      by (cases rv)
        (auto simp: construction_kept_def render_page_def Scene_render_def Suspense_render_def
          Foo_commit_def construction_kept_Scene_mount
          split: option.splits canvas_children.splits if_splits)
  qed
  with h' show ?thesis by blast
qed

lemma run_construction_kept:
  assumes sh: "sh ''amount'' \<noteq> None"
  shows "home_inv rv h \<Longrightarrow> construction_kept rv h \<Longrightarrow>
         \<exists>h'. run rv sh evs h = Inr h' \<and> construction_kept rv h'"
proof (induction evs arbitrary: h)
  case Nil
  then show ?case by simp
next
  case (Cons ev evs)
  from sh Cons.prems have
    "\<exists>h'. step rv sh ev h = Inr h' \<and> home_inv rv h' \<and> construction_kept rv h'"
    by (intro step_construction_kept) simp_all
  then obtain h1 where
    h1: "step rv sh ev h = Inr h1" "home_inv rv h1" "construction_kept rv h1"
    by blast
  from Cons.IH [OF h1(2,3)] h1(1) show ?case
    by (simp add: and_then_Inr)
qed

subsection \<open>The claims\<close>

text \<open>
  C1. For every terrain instance \<open>r\<close> with stagger \<open>stagger r\<close> and every elapsed time, the
  depth written to the instance is \<open>(elapsed_time * rate) % period + stagger r\<close>, with the
  remainder operator of the code, period 2, rate 0.1 in the earlier and 0 in the later
  revision, and staggers 0, -2 and (later revision) 2. For every elapsed time the clock
  supplies (a number of seconds since the start, so not negative) this is
  \<open>(elapsed_time * rate) mod period + stagger r\<close> with the mathematical modulo.
\<close>

theorem terrain_depth_formula:
  assumes "attached rv ts" and "r \<in> set (instances rv)"
  shows "written_depth rv t ts r = Some (js_rem (t * rate rv) period + stagger r) \<and>
         (0 \<le> t \<longrightarrow>
            written_depth rv t ts r = Some (floor_mod (t * rate rv) period + stagger r))"
proof (cases rv)
  case Early
  have "0 \<le> t \<longrightarrow> js_rem (t * 0.1) 2 = floor_mod (t * 0.1) 2"
    by (simp add: js_rem_nonneg)
  with assms Early show ?thesis
    by (auto simp: instances_def written_depth_Early rate_def period_def stagger_def)
next
  case Late
  with assms show ?thesis
    by (auto simp: instances_def written_depth_Late rate_def period_def stagger_def
        floor_mod_zero js_rem_zero)
qed

theorem terrain_depth_formula_witness:
  "written_depth Early 25 (Landscape_mount Early) terrain2Ref = Some (- 3 / 2) \<and>
   written_depth Late 25 (Landscape_mount Late) terrain3Ref = Some 2"
proof -
  have a: "written_depth Early 25 (Landscape_mount Early) terrain2Ref = Some (- 3 / 2)"
    using terrain_depth_formula [of Early "Landscape_mount Early" terrain2Ref 25, THEN conjunct2]
    by (simp add: attached_Landscape_mount instances_def rate_def period_def stagger_def
        floor_mod_def)
  have b: "written_depth Late 25 (Landscape_mount Late) terrain3Ref = Some 2"
    using terrain_depth_formula [of Late "Landscape_mount Late" terrain3Ref 25, THEN conjunct2]
    by (simp add: attached_Landscape_mount instances_def rate_def period_def stagger_def
        floor_mod_def)
  from a b show ?thesis by simp
qed

text \<open>
  C2. For every elapsed time \<open>t \<ge> 0\<close> and both configurations, the depth written to an
  instance lies in the half-open interval from its stagger to its stagger plus the period.
\<close>

theorem terrain_depth_range:
  assumes "0 \<le> t" and "attached rv ts" and "r \<in> set (instances rv)"
  shows "\<exists>d. written_depth rv t ts r = Some d \<and> stagger r \<le> d \<and> d < stagger r + period"
proof (cases rv)
  case Early
  from \<open>0 \<le> t\<close> have "js_rem (t * 0.1) 2 = floor_mod (t * 0.1) 2"
    by (simp add: js_rem_nonneg)
  moreover have "0 \<le> floor_mod (t * 0.1) 2 \<and> floor_mod (t * 0.1) 2 < 2"
    by (rule floor_mod_range) simp
  ultimately show ?thesis using assms Early
    by (auto simp: instances_def written_depth_Early period_def stagger_def)
next
  case Late
  with assms show ?thesis
    by (auto simp: instances_def written_depth_Late period_def stagger_def)
qed

theorem terrain_depth_range_witness:
  "\<exists>d. written_depth Early 25 (Landscape_mount Early) terrain2Ref = Some d \<and> - 2 \<le> d \<and> d < 0"
  using terrain_depth_range [of 25 Early "Landscape_mount Early" terrain2Ref]
  by (simp add: attached_Landscape_mount instances_def period_def stagger_def)

text \<open>
  C3, as stated, fails: at elapsed time 0 the earlier revision writes the depths 0 and -2
  to the two terrains. They differ by 2 (in either order, by 2 in absolute value), while
  \<open>(0 - (-2)) mod 2\<close> is 0, with the mathematical modulo and with the remainder of the code.
\<close>

theorem terrain_spacing_counterexample:
  "written_depth Early 0 (Landscape_mount Early) terrain1Ref = Some 0 \<and>
   written_depth Early 0 (Landscape_mount Early) terrain2Ref = Some (- 2) \<and>
   floor_mod (stagger terrain1Ref - stagger terrain2Ref) period = 0 \<and>
   js_rem (stagger terrain1Ref - stagger terrain2Ref) period = 0 \<and>
   the (written_depth Early 0 (Landscape_mount Early) terrain1Ref)
     - the (written_depth Early 0 (Landscape_mount Early) terrain2Ref)
     \<noteq> floor_mod (stagger terrain1Ref - stagger terrain2Ref) period \<and>
   \<bar>the (written_depth Early 0 (Landscape_mount Early) terrain1Ref)
     - the (written_depth Early 0 (Landscape_mount Early) terrain2Ref)\<bar>
     \<noteq> floor_mod (stagger terrain1Ref - stagger terrain2Ref) period"
  by (simp add: written_depth_Early attached_Landscape_mount js_rem_zero stagger_def
      period_def floor_mod_def js_rem_def js_trunc_def)

text \<open>
  C3, amended. At every tick the depths written to two instances differ by exactly the
  difference of their staggers, \<open>stagger i - stagger j\<close>, not reduced modulo the period (so
  the two differences are, in particular, congruent modulo the period).
\<close>

theorem terrain_spacing:
  assumes "attached rv ts" and "i \<in> set (instances rv)" and "j \<in> set (instances rv)"
  shows "\<exists>di dj. written_depth rv t ts i = Some di \<and> written_depth rv t ts j = Some dj \<and>
           di - dj = stagger i - stagger j \<and>
           floor_mod (di - dj) period = floor_mod (stagger i - stagger j) period"
proof (cases rv)
  case Early
  with assms show ?thesis
    by (auto simp: instances_def written_depth_Early stagger_def)
next
  case Late
  with assms show ?thesis
    by (auto simp: instances_def written_depth_Late stagger_def)
qed

theorem terrain_spacing_witness:
  "\<exists>di dj. written_depth Early 7 (Landscape_mount Early) terrain1Ref = Some di \<and>
     written_depth Early 7 (Landscape_mount Early) terrain2Ref = Some dj \<and> di - dj = 2"
  using terrain_spacing [of Early "Landscape_mount Early" terrain1Ref terrain2Ref 7]
  by (auto simp: attached_Landscape_mount instances_def stagger_def)

text \<open>
  C5. In the later revision (rate 0) the depth written to an instance is the same constant,
  its stagger, for every elapsed time; the whole callback does not depend on the time.
\<close>

theorem terrain_frozen:
  assumes "attached Late ts" and "r \<in> set (instances Late)"
  shows "written_depth Late t ts r = Some (stagger r) \<and>
         Landscape_useFrame Late t ts = Landscape_useFrame Late 0 ts"
proof -
  have "Landscape_useFrame Late t ts = Landscape_useFrame Late 0 ts"
    by (simp add: Landscape_useFrame_def Landscape_useFrame_v2_def)
  with assms show ?thesis
    by (auto simp: instances_def written_depth_Late stagger_def)
qed

theorem terrain_frozen_witness:
  "written_depth Late 1000000 (Landscape_mount Late) terrain2Ref = Some (- 2) \<and>
   Landscape_useFrame Late 1000000 (Landscape_mount Late)
     = Landscape_useFrame Late 0 (Landscape_mount Late)"
  using terrain_frozen [of "Landscape_mount Late" terrain2Ref 1000000]
  by (simp add: attached_Landscape_mount instances_def stagger_def)


text \<open>
  C6. For every pair of an elapsed time \<open>t\<close> and a scroll offset \<open>v\<close>, running the update
  for that pair (the scroll event, then the frame) twice gives the same result as running
  it once: all outputs (terrain depths, shader uniform, camera depth) are identical, and
  nothing accumulates. On a state that satisfies \<open>home_inv\<close> the update returns.
\<close>

theorem update_idempotent:
  "run rv sh [ScrollEvent v, Frame t, ScrollEvent v, Frame t] h
     = run rv sh [ScrollEvent v, Frame t] h \<and>
   (home_inv rv h \<longrightarrow> (\<exists>h'. run rv sh [ScrollEvent v, Frame t] h = Inr h'))"
proof
  have "run rv sh ([ScrollEvent v, Frame t] @ [ScrollEvent v, Frame t]) h
          = run rv sh [ScrollEvent v, Frame t] h"
  proof (cases "run rv sh [ScrollEvent v, Frame t] h")
    case (Inl e)
    then show ?thesis
      by (simp only: run_append and_then_Inl)
  next
    case (Inr h')
    from scroll_then_frame_idem [OF Inr] Inr show ?thesis
      by (simp only: run_append and_then_Inr)
  qed
  then show "run rv sh [ScrollEvent v, Frame t, ScrollEvent v, Frame t] h
               = run rv sh [ScrollEvent v, Frame t] h"
    by simp
next
  show "home_inv rv h \<longrightarrow> (\<exists>h'. run rv sh [ScrollEvent v, Frame t] h = Inr h')"
  proof
    assume inv: "home_inv rv h"
    then have "\<exists>h1. step rv sh (ScrollEvent v) h = Inr h1 \<and> home_inv rv h1 \<and>
        (mounted h \<longrightarrow> mounted h1) \<and> (assets_loaded h \<longrightarrow> assets_loaded h1)"
      by (intro step_home_inv) simp_all
    then obtain h1 where h1: "step rv sh (ScrollEvent v) h = Inr h1" "home_inv rv h1"
      by blast
    from h1(2) have "\<exists>h2. step rv sh (Frame t) h1 = Inr h2 \<and> home_inv rv h2 \<and>
        (mounted h1 \<longrightarrow> mounted h2) \<and> (assets_loaded h1 \<longrightarrow> assets_loaded h2)"
      by (intro step_home_inv) simp_all
    with h1(1) show "\<exists>h'. run rv sh [ScrollEvent v, Frame t] h = Inr h'"
      by (auto simp: and_then_Inr)
  qed
qed

theorem update_idempotent_witness:
  "run Late RGBShiftShader_uniforms [ScrollEvent 100, Frame 3, ScrollEvent 100, Frame 3]
      \<lparr>scroll = 0, mounted = True, assets_loaded = True,
       canvas = Some (Committed (Scene_mount Late RGBShiftShader_uniforms))\<rparr>
     = run Late RGBShiftShader_uniforms [ScrollEvent 100, Frame 3]
         \<lparr>scroll = 0, mounted = True, assets_loaded = True,
          canvas = Some (Committed (Scene_mount Late RGBShiftShader_uniforms))\<rparr> \<and>
   (\<exists>h'. run Late RGBShiftShader_uniforms [ScrollEvent 100, Frame 3]
      \<lparr>scroll = 0, mounted = True, assets_loaded = True,
       canvas = Some (Committed (Scene_mount Late RGBShiftShader_uniforms))\<rparr>
     = Inr h')"
proof -
  have "home_inv Late
      \<lparr>scroll = 0, mounted = True, assets_loaded = True,
       canvas = Some (Committed (Scene_mount Late RGBShiftShader_uniforms))\<rparr>"
    by (simp add: home_inv_def scene_attached_Scene_mount RGBShiftShader_uniforms_amount)
  with update_idempotent [of Late RGBShiftShader_uniforms 100 3
      "\<lparr>scroll = 0, mounted = True, assets_loaded = True,
        canvas = Some (Committed (Scene_mount Late RGBShiftShader_uniforms))\<rparr>"]
  show ?thesis by blast
qed

text \<open>
  C7. A frame of \<^verbatim>\<open>Effects\<close> with attached refs leaves 0.0012 in the \<^verbatim>\<open>amount\<close> uniform;
  and on the page, once a frame has run on the committed scene (after the mount signal and
  the arrival of the assets), the uniform is 0.0012 and stays so whatever events follow.
\<close>

theorem rgb_shift_amount_constant:
  "(effects_attached e \<longrightarrow>
      (\<exists>e' p'. Effects_useFrame e = Inr e' \<and> rgbShiftRef e' = Some p' \<and>
         uniforms p' ''amount'' = Some (Number 0.0012))) \<and>
   (sh ''amount'' \<noteq> None \<longrightarrow>
      (\<exists>h. run rv sh (evs1 @ MountEffect # evs2 @ AssetsLoaded # evs3 @ Frame t # evs4)
              (Home_init rv sh) = Inr h \<and>
         amount_of h = Some (Number 0.0012)))"
proof (intro conjI impI)
  assume "effects_attached e"
  from Effects_useFrame_attached [OF this]
  show "\<exists>e' p'. Effects_useFrame e = Inr e' \<and> rgbShiftRef e' = Some p' \<and>
         uniforms p' ''amount'' = Some (Number 0.0012)"
    by auto
next
  assume sh: "sh ''amount'' \<noteq> None"
  from run_reaches_committed
    [where sh = sh and rv = rv and evs = evs1 and evs' = evs2 and evs'' = evs3, OF sh]
  obtain h1 where
    h1: "run rv sh (evs1 @ MountEffect # evs2 @ AssetsLoaded # evs3) (Home_init rv sh) = Inr h1"
      "home_inv rv h1" "mounted h1" "assets_loaded h1"
    by blast
  from amount_of_after_Frame [OF h1(2,3,4), of sh t] obtain h2 where
    h2: "step rv sh (Frame t) h1 = Inr h2" "home_inv rv h2" "mounted h2" "assets_loaded h2"
      "amount_of h2 = Some (Number 0.0012)"
    by blast
  from run_keeps_amount [where sh = sh and evs = evs4, OF sh h2(2,3,4,5)] obtain h3 where
    h3: "run rv sh evs4 h2 = Inr h3" "amount_of h3 = Some (Number 0.0012)"
    by blast
  have "run rv sh (evs1 @ MountEffect # evs2 @ AssetsLoaded # evs3 @ Frame t # evs4)
          (Home_init rv sh)
          = run rv sh ((evs1 @ MountEffect # evs2 @ AssetsLoaded # evs3) @ Frame t # evs4)
              (Home_init rv sh)"
    by simp
  also have "\<dots> = Inr h3"
    using h1(1) h2(1) h3(1) by (simp only: run_append run.simps and_then_Inr)
  finally show "\<exists>h. run rv sh (evs1 @ MountEffect # evs2 @ AssetsLoaded # evs3 @ Frame t # evs4)
                      (Home_init rv sh) = Inr h \<and>
         amount_of h = Some (Number 0.0012)"
    using h3(2) by blast
qed

theorem rgb_shift_amount_constant_witness:
  "(\<exists>e' p'. Effects_useFrame (Effects_mount RGBShiftShader_uniforms) = Inr e' \<and>
      rgbShiftRef e' = Some p' \<and> uniforms p' ''amount'' = Some (Number 0.0012)) \<and>
   (\<exists>h. run Late RGBShiftShader_uniforms
          ([Frame 1] @ MountEffect # [ScrollEvent 10] @ AssetsLoaded # [Frame 7] @ Frame 2 #
             [Frame 5, ScrollEvent 20])
          (Home_init Late RGBShiftShader_uniforms) = Inr h \<and>
        amount_of h = Some (Number 0.0012))"
proof -
  have "effects_attached (Effects_mount RGBShiftShader_uniforms)"
    using RGBShiftShader_uniforms_amount by (rule effects_attached_Effects_mount)
  with rgb_shift_amount_constant [of "Effects_mount RGBShiftShader_uniforms"
      RGBShiftShader_uniforms Late "[Frame 1]" "[ScrollEvent 10]" "[Frame 7]" 2
      "[Frame 5, ScrollEvent 20]"]
    RGBShiftShader_uniforms_amount
  show ?thesis by blast
qed

text \<open>
  C8, as stated, fails: after the mount signal the canvas exists, but its children are
  suspended until the assets are loaded, and a display refresh in between runs no
  callback. In both revisions the page after the signal and a frame at elapsed time 25 is
  the page after the signal alone: mounted, showing the fallback, with no scene.
\<close>

theorem mount_gate_counterexample:
  "run Early RGBShiftShader_uniforms [MountEffect, Frame 25] (Home_init Early RGBShiftShader_uniforms)
     = Inr \<lparr>scroll = 0, mounted = True, assets_loaded = False, canvas = Some Suspended\<rparr> \<and>
   run Early RGBShiftShader_uniforms [MountEffect] (Home_init Early RGBShiftShader_uniforms)
     = Inr \<lparr>scroll = 0, mounted = True, assets_loaded = False, canvas = Some Suspended\<rparr> \<and>
   run Late RGBShiftShader_uniforms [MountEffect, Frame 25] (Home_init Late RGBShiftShader_uniforms)
     = Inr \<lparr>scroll = 0, mounted = True, assets_loaded = False, canvas = Some Suspended\<rparr> \<and>
   run Late RGBShiftShader_uniforms [MountEffect] (Home_init Late RGBShiftShader_uniforms)
     = Inr \<lparr>scroll = 0, mounted = True, assets_loaded = False, canvas = Some Suspended\<rparr>"
  by (simp add: Home_init_def render_page_def Scene_render_def Suspense_render_def and_then_def)

text \<open>
  C8, amended. Before the mount signal no tick executes and nothing is mutated: after any
  events without \<open>MountEffect\<close> the page is unmounted and has no canvas, hence no scene
  graph. After the signal and until the assets of the scene have loaded, the canvas shows
  the fallback and still no tick executes. Once the assets have loaded after the signal,
  ticking has begun and is never again suppressed: whatever events precede, separate and
  follow the two, a display refresh runs the per-frame update, which leaves the depths of
  the formula of C1 in the terrains and 0.0012 in the \<^verbatim>\<open>amount\<close> uniform.
\<close>

theorem mount_gate:
  "(MountEffect \<notin> set evs0 \<longrightarrow>
      (\<exists>h. run rv sh evs0 (Home_init rv sh) = Inr h \<and> \<not> mounted h \<and> canvas h = None)) \<and>
   (MountEffect \<notin> set evs1 \<and> AssetsLoaded \<notin> set evs2 \<longrightarrow>
      (\<exists>h. run rv sh (evs1 @ MountEffect # evs2) (Home_init rv sh) = Inr h \<and>
         mounted h \<and> canvas h = Some Suspended)) \<and>
   (sh ''amount'' \<noteq> None \<longrightarrow>
      (\<exists>h sc. run rv sh (evs3 @ MountEffect # evs4 @ AssetsLoaded # evs5 @ [Frame t])
                 (Home_init rv sh) = Inr h \<and>
         mounted h \<and> canvas h = Some (Committed sc) \<and>
         (\<forall>r \<in> set (instances rv).
            depth r (terrains sc) = Some (js_rem (t * rate rv) period + stagger r)) \<and>
         uniform_of ''amount'' (effects sc) = Some (Number 0.0012)))"
proof (intro conjI impI)
  assume "MountEffect \<notin> set evs0"
  from run_unmounted [OF this, of "Home_init rv sh" rv sh] Home_init_unmounted [of rv sh]
  show "\<exists>h. run rv sh evs0 (Home_init rv sh) = Inr h \<and> \<not> mounted h \<and> canvas h = None"
    by auto
next
  assume a: "MountEffect \<notin> set evs1 \<and> AssetsLoaded \<notin> set evs2"
  then have m: "MountEffect \<notin> set evs1" and l: "AssetsLoaded \<notin> set evs2"
    by simp_all
  from run_unmounted [OF m, of "Home_init rv sh" rv sh] Home_init_unmounted [of rv sh]
  obtain h1 where
    h1: "run rv sh evs1 (Home_init rv sh) = Inr h1" "\<not> mounted h1" "\<not> assets_loaded h1"
      "canvas h1 = None"
    by auto
  define h2 where "h2 = render_page rv sh (h1\<lparr>mounted := True\<rparr>)"
  from h1(3) have h2: "step rv sh MountEffect h1 = Inr h2" "mounted h2" "\<not> assets_loaded h2"
    "canvas h2 = Some Suspended"
    by (simp_all add: h2_def render_page_def Scene_render_def Suspense_render_def)
  from run_suspended [OF l h2(2,3,4), of rv sh] obtain h3 where
    h3: "run rv sh evs2 h2 = Inr h3" "mounted h3" "canvas h3 = Some Suspended"
    by blast
  from h1(1) h2(1) h3 show
    "\<exists>h. run rv sh (evs1 @ MountEffect # evs2) (Home_init rv sh) = Inr h \<and>
         mounted h \<and> canvas h = Some Suspended"
    by (simp add: run_append and_then_Inr)
next
  assume sh: "sh ''amount'' \<noteq> None"
  from run_reaches_committed
    [where sh = sh and rv = rv and evs = evs3 and evs' = evs4 and evs'' = evs5, OF sh]
  obtain h1 where
    h1: "run rv sh (evs3 @ MountEffect # evs4 @ AssetsLoaded # evs5) (Home_init rv sh) = Inr h1"
      "home_inv rv h1" "mounted h1" "assets_loaded h1"
    by blast
  from step_Frame_committed [OF h1(2,3,4), of t sh] obtain sc ts' p' where
    f: "canvas h1 = Some (Committed sc)"
      "Landscape_useFrame rv t (terrains sc) = Inr ts'"
      "uniforms p' ''amount'' = Some (Number 0.0012)"
      "step rv sh (Frame t) h1 =
         Inr (h1\<lparr>canvas := Some (Committed
                (sc\<lparr>terrains := ts', effects := (effects sc)\<lparr>rgbShiftRef := Some p'\<rparr>\<rparr>))\<rparr>)"
      "attached rv (terrains sc)"
    by blast
  have d: "\<forall>r \<in> set (instances rv).
             depth r ts' = Some (js_rem (t * rate rv) period + stagger r)"
  proof
    fix r
    assume "r \<in> set (instances rv)"
    with f(5) have "written_depth rv t (terrains sc) r
        = Some (js_rem (t * rate rv) period + stagger r)"
      by (rule written_depth_code)
    with f(2) show "depth r ts' = Some (js_rem (t * rate rv) period + stagger r)"
      by (simp add: written_depth_def)
  qed
  have "run rv sh (evs3 @ MountEffect # evs4 @ AssetsLoaded # evs5 @ [Frame t]) (Home_init rv sh)
          = run rv sh ((evs3 @ MountEffect # evs4 @ AssetsLoaded # evs5) @ [Frame t])
              (Home_init rv sh)"
    by simp
  also have "\<dots> = Inr (h1\<lparr>canvas := Some (Committed
                (sc\<lparr>terrains := ts', effects := (effects sc)\<lparr>rgbShiftRef := Some p'\<rparr>\<rparr>))\<rparr>)"
    using h1(1) f(4) by (simp only: run_append run.simps and_then_Inr)
  finally show
    "\<exists>h sc. run rv sh (evs3 @ MountEffect # evs4 @ AssetsLoaded # evs5 @ [Frame t])
                 (Home_init rv sh) = Inr h \<and>
         mounted h \<and> canvas h = Some (Committed sc) \<and>
         (\<forall>r \<in> set (instances rv).
            depth r (terrains sc) = Some (js_rem (t * rate rv) period + stagger r)) \<and>
         uniform_of ''amount'' (effects sc) = Some (Number 0.0012)"
    using h1(3) f(3) d by (simp add: uniform_of_def)
qed

theorem mount_gate_witness:
  "(\<exists>h. run Late RGBShiftShader_uniforms [Frame 1, ScrollEvent 40, AssetsLoaded, Frame 2]
          (Home_init Late RGBShiftShader_uniforms) = Inr h \<and>
        \<not> mounted h \<and> canvas h = None) \<and>
   (\<exists>h. run Late RGBShiftShader_uniforms ([ScrollEvent 40] @ MountEffect # [Frame 1, ScrollEvent 50])
          (Home_init Late RGBShiftShader_uniforms) = Inr h \<and>
        mounted h \<and> canvas h = Some Suspended) \<and>
   (\<exists>h sc. run Early RGBShiftShader_uniforms
             ([Frame 1] @ MountEffect # [Frame 2] @ AssetsLoaded # [Frame 3] @ [Frame 25])
             (Home_init Early RGBShiftShader_uniforms) = Inr h \<and>
      mounted h \<and> canvas h = Some (Committed sc) \<and>
      depth terrain1Ref (terrains sc) = Some (1 / 2) \<and>
      depth terrain2Ref (terrains sc) = Some (- 3 / 2) \<and>
      uniform_of ''amount'' (effects sc) = Some (Number 0.0012))"
proof -
  have a: "\<exists>h. run Late RGBShiftShader_uniforms [Frame 1, ScrollEvent 40, AssetsLoaded, Frame 2]
          (Home_init Late RGBShiftShader_uniforms) = Inr h \<and>
        \<not> mounted h \<and> canvas h = None"
    using mount_gate [of "[Frame 1, ScrollEvent 40, AssetsLoaded, Frame 2]" Late
        RGBShiftShader_uniforms, THEN conjunct1]
    by simp
  have b: "\<exists>h. run Late RGBShiftShader_uniforms
          ([ScrollEvent 40] @ MountEffect # [Frame 1, ScrollEvent 50])
          (Home_init Late RGBShiftShader_uniforms) = Inr h \<and>
        mounted h \<and> canvas h = Some Suspended"
    using mount_gate [of _ Late RGBShiftShader_uniforms "[ScrollEvent 40]"
        "[Frame 1, ScrollEvent 50]", THEN conjunct2, THEN conjunct1]
    by simp
  have r: "js_rem (25 * rate Early) period = 1 / 2"
    by (simp add: js_rem_def js_trunc_def rate_def period_def)
  have c: "\<exists>h sc. run Early RGBShiftShader_uniforms
             ([Frame 1] @ MountEffect # [Frame 2] @ AssetsLoaded # [Frame 3] @ [Frame 25])
             (Home_init Early RGBShiftShader_uniforms) = Inr h \<and>
      mounted h \<and> canvas h = Some (Committed sc) \<and>
      depth terrain1Ref (terrains sc) = Some (1 / 2) \<and>
      depth terrain2Ref (terrains sc) = Some (- 3 / 2) \<and>
      uniform_of ''amount'' (effects sc) = Some (Number 0.0012)"
    using mount_gate [of _ Early RGBShiftShader_uniforms _ _ "[Frame 1]" "[Frame 2]" "[Frame 3]" 25,
        THEN conjunct2, THEN conjunct2] RGBShiftShader_uniforms_amount
    by (simp add: instances_def stagger_def r)
  from a b c show ?thesis by blast
qed

text \<open>
  C9. Once the scene is attached, a frame never fails and leaves the scene attached; and
  from the initial page, whatever events occur, the error branch is never reached (given
  that the imported shader declares the uniform \<^verbatim>\<open>amount\<close>). The per-frame callbacks contain
  no division and no numeric index.
\<close>

theorem tick_total:
  "(scene_attached rv sc \<longrightarrow> (\<exists>sc'. Scene_useFrame rv t sc = Inr sc' \<and> scene_attached rv sc')) \<and>
   (sh ''amount'' \<noteq> None \<longrightarrow>
      (\<exists>h. run rv sh evs (Home_init rv sh) = Inr h \<and> home_inv rv h))"
proof (intro conjI impI)
  assume "scene_attached rv sc"
  then show "\<exists>sc'. Scene_useFrame rv t sc = Inr sc' \<and> scene_attached rv sc'"
    by (rule Scene_useFrame_preserves)
next
  assume sh: "sh ''amount'' \<noteq> None"
  from run_home_inv [where sh = sh and rv = rv and evs = evs, OF sh home_inv_Home_init]
  show "\<exists>h. run rv sh evs (Home_init rv sh) = Inr h \<and> home_inv rv h"
    by blast
qed

theorem tick_total_witness:
  "(\<exists>sc'. Scene_useFrame Late 3 (Scene_mount Late RGBShiftShader_uniforms) = Inr sc') \<and>
   (\<exists>h. run Late RGBShiftShader_uniforms
          [Frame 1, MountEffect, ScrollEvent 100, AssetsLoaded, Frame 2]
          (Home_init Late RGBShiftShader_uniforms) = Inr h)"
  using tick_total [of Late "Scene_mount Late RGBShiftShader_uniforms" 3 RGBShiftShader_uniforms
      "[Frame 1, MountEffect, ScrollEvent 100, AssetsLoaded, Frame 2]"]
  by (auto simp: scene_attached_Scene_mount RGBShiftShader_uniforms_amount)

text \<open>
  C10, as stated, fails in its last part: a frame of \<^verbatim>\<open>Effects\<close> changes a second uniform of
  the shader pass. On the freshly committed pass \<^verbatim>\<open>tDiffuse\<close> is \<^verbatim>\<open>null\<close>; after one frame it is
  the texture of the composer's read buffer, stored there by \<^verbatim>\<open>composerRef.current.render()\<close>.
\<close>

theorem tick_frame_effect_counterexample:
  "Effects_useFrame (Effects_mount RGBShiftShader_uniforms)
     = Inr \<lparr>composerRef = Some \<lparr>writeBuffer = renderTarget1, readBuffer = renderTarget2\<rparr>,
            rgbShiftRef = Some \<lparr>uniforms =
              RGBShiftShader_uniforms(''amount'' \<mapsto> Number 0.0012,
                ''tDiffuse'' \<mapsto> Texture renderTarget2)\<rparr>\<rparr> \<and>
   \<not> same_but_amount \<lparr>uniforms = RGBShiftShader_uniforms\<rparr>
       \<lparr>uniforms = RGBShiftShader_uniforms(''amount'' \<mapsto> Number 0.0012,
          ''tDiffuse'' \<mapsto> Texture renderTarget2)\<rparr> \<and>
   uniform_of ''tDiffuse'' (Effects_mount RGBShiftShader_uniforms) = Some Null \<and>
   uniform_after_frame ''tDiffuse'' (Effects_mount RGBShiftShader_uniforms)
     = Some (Texture renderTarget2) \<and>
   ''tDiffuse'' \<noteq> ''amount''"
proof -
  have t: "RGBShiftShader_uniforms ''tDiffuse'' = Some Null"
    by (simp add: RGBShiftShader_uniforms_def)
  have f: "Effects_useFrame (Effects_mount RGBShiftShader_uniforms)
     = Inr \<lparr>composerRef = Some \<lparr>writeBuffer = renderTarget1, readBuffer = renderTarget2\<rparr>,
            rgbShiftRef = Some \<lparr>uniforms =
              RGBShiftShader_uniforms(''amount'' \<mapsto> Number 0.0012,
                ''tDiffuse'' \<mapsto> Texture renderTarget2)\<rparr>\<rparr>"
    using RGBShiftShader_uniforms_amount t
    by (auto simp: Effects_useFrame_def Effects_mount_def and_then_def EffectComposer_render_def
        swapBuffers_def ShaderPass_render_def)
  have n: "\<not> same_but_amount \<lparr>uniforms = RGBShiftShader_uniforms\<rparr>
       \<lparr>uniforms = RGBShiftShader_uniforms(''amount'' \<mapsto> Number 0.0012,
          ''tDiffuse'' \<mapsto> Texture renderTarget2)\<rparr>"
  proof
    assume "same_but_amount \<lparr>uniforms = RGBShiftShader_uniforms\<rparr>
       \<lparr>uniforms = RGBShiftShader_uniforms(''amount'' \<mapsto> Number 0.0012,
          ''tDiffuse'' \<mapsto> Texture renderTarget2)\<rparr>"
    then have "(RGBShiftShader_uniforms(''amount'' \<mapsto> Number 0.0012,
          ''tDiffuse'' \<mapsto> Texture renderTarget2)) ''tDiffuse''
        = RGBShiftShader_uniforms ''tDiffuse''"
      unfolding same_but_amount_def by (auto dest: spec [of _ "''tDiffuse''"])
    with t show False by simp
  qed
  from f n t show ?thesis
    by (simp add: uniform_after_frame_def uniform_of_def Effects_mount_def)
qed

text \<open>
  C10, amended. A frame leaves the camera and the composer ref as they are and changes at
  most the depth of each terrain (x, y and rotation are kept); of the uniforms of the
  shader pass it changes at most \<^verbatim>\<open>amount\<close>, which the callback assigns, and \<^verbatim>\<open>tDiffuse\<close>, which
  the composer's \<^verbatim>\<open>render()\<close> rewrites. On the page, whatever events occur, the terrains keep
  the x, y and rotation they were constructed with.
\<close>

theorem tick_frame_effect:
  "(scene_attached rv sc \<longrightarrow>
      (\<exists>sc'. Scene_useFrame rv t sc = Inr sc' \<and> camera sc' = camera sc \<and>
         (\<forall>r. rel_option same_but_z (terrains sc r) (terrains sc' r)) \<and>
         composerRef (effects sc') = composerRef (effects sc) \<and>
         rel_option same_but_amount_tDiffuse
           (rgbShiftRef (effects sc)) (rgbShiftRef (effects sc')))) \<and>
   (sh ''amount'' \<noteq> None \<longrightarrow>
      (\<exists>h. run rv sh evs (Home_init rv sh) = Inr h \<and> construction_kept rv h))"
proof (intro conjI impI)
  assume "scene_attached rv sc"
  from Scene_useFrame_attached [OF this, of t] obtain ts' p p' where
    p: "rgbShiftRef (effects sc) = Some p"
    and f: "Scene_useFrame rv t sc =
         Inr (sc\<lparr>terrains := ts', effects := (effects sc)\<lparr>rgbShiftRef := Some p'\<rparr>\<rparr>)"
    and s: "same_but_amount_tDiffuse p p'"
    and r: "\<forall>r. rel_option same_but_z (terrains sc r) (ts' r)"
    by blast
  then show "\<exists>sc'. Scene_useFrame rv t sc = Inr sc' \<and> camera sc' = camera sc \<and>
         (\<forall>r. rel_option same_but_z (terrains sc r) (terrains sc' r)) \<and>
         composerRef (effects sc') = composerRef (effects sc) \<and>
         rel_option same_but_amount_tDiffuse
           (rgbShiftRef (effects sc)) (rgbShiftRef (effects sc'))"
    by simp
next
  assume sh: "sh ''amount'' \<noteq> None"
  have "construction_kept rv (Home_init rv sh)"
    by (simp add: construction_kept_def Home_init_unmounted)
  from run_construction_kept [where sh = sh and evs = evs, OF sh home_inv_Home_init this]
  show "\<exists>h. run rv sh evs (Home_init rv sh) = Inr h \<and> construction_kept rv h" .
qed

theorem tick_frame_effect_witness:
  "(\<exists>sc'. Scene_useFrame Late 3 (Scene_mount Late RGBShiftShader_uniforms) = Inr sc' \<and>
      camera sc' = camera (Scene_mount Late RGBShiftShader_uniforms) \<and>
      (\<forall>r. rel_option same_but_z (terrains (Scene_mount Late RGBShiftShader_uniforms) r)
             (terrains sc' r)) \<and>
      composerRef (effects sc') = composerRef (effects (Scene_mount Late RGBShiftShader_uniforms)) \<and>
      rel_option same_but_amount_tDiffuse
        (rgbShiftRef (effects (Scene_mount Late RGBShiftShader_uniforms)))
        (rgbShiftRef (effects sc'))) \<and>
   (\<exists>h. run Late RGBShiftShader_uniforms
          [MountEffect, AssetsLoaded, Frame 3, ScrollEvent 5, Frame 9]
          (Home_init Late RGBShiftShader_uniforms) = Inr h \<and>
        construction_kept Late h)"
proof -
  have "scene_attached Late (Scene_mount Late RGBShiftShader_uniforms)"
    using RGBShiftShader_uniforms_amount by (rule scene_attached_Scene_mount)
  with tick_frame_effect [of Late "Scene_mount Late RGBShiftShader_uniforms" 3
      RGBShiftShader_uniforms "[MountEffect, AssetsLoaded, Frame 3, ScrollEvent 5, Frame 9]"]
    RGBShiftShader_uniforms_amount
  show ?thesis by blast
qed

end
